theory Spec2Isabelle
  imports Complex_Main "HOL-Library.Word" "HOL-Library.Sublist"
begin

section \<open>JavaScript values used by the frontend component\<close>

text \<open>
  A JavaScript string is a sequence of UTF-16 code units. String literals of the source
  are ASCII and are written through \<open>js\<close>.
\<close>

type_synonym jsstring = "16 word list"

definition js :: "string \<Rightarrow> jsstring" where
  "js cs = map (\<lambda>c. of_nat (of_char c)) cs"

text \<open>
  \<open>String.prototype.trim\<close> removes WhiteSpace and LineTerminator code points from both ends:
  TAB, VT, FF, SP, NBSP, ZWNBSP, the space separators (U+1680, U+2000 to U+200A, U+202F,
  U+205F, U+3000) and LF, CR, LS, PS.
\<close>

definition isWhiteSpace :: "16 word \<Rightarrow> bool" where
  "isWhiteSpace c \<longleftrightarrow>
     c \<in> {0x0009, 0x000B, 0x000C, 0x0020, 0x00A0, 0xFEFF, 0x1680, 0x202F, 0x205F, 0x3000}
     \<or> (0x2000 \<le> c \<and> c \<le> 0x200A)
     \<or> c \<in> {0x000A, 0x000D, 0x2028, 0x2029}"

definition trim :: "jsstring \<Rightarrow> jsstring" where
  "trim s = rev (dropWhile isWhiteSpace (rev (dropWhile isWhiteSpace s)))"

text \<open>
  The body of an HTTP response and the \<open>lastAnalysis\<close> state have type \<open>any\<close>: a parsed
  JSON value, or \<open>undefined\<close>. A number is the value of the parsed double; an object is
  the list of its entries.
\<close>

datatype json =
    JUndefined
  | JNull
  | JBool bool
  | JNum rat
  | JStr jsstring
  | JArr "json list"
  | JObj "(jsstring \<times> json) list"

text \<open>The truthiness test of \<open>if (v)\<close>, \<open>v || w\<close> and \<open>!v\<close>.\<close>

fun truthy :: "json \<Rightarrow> bool" where
  "truthy JUndefined = False"
| "truthy JNull = False"
| "truthy (JBool b) = b"
| "truthy (JNum n) = (n \<noteq> 0)"
| "truthy (JStr s) = (s \<noteq> [])"
| "truthy (JArr xs) = True"
| "truthy (JObj kvs) = True"

datatype exn = TypeError | RequestError | RenderError

text \<open>
  Reading a property \<open>v.k\<close>: a TypeError on \<open>null\<close> and \<open>undefined\<close>, the entry of an
  object or \<open>undefined\<close> when it has none. The component reads only the keys
  \<open>last_analysis\<close>, \<open>image_url\<close> and \<open>response\<close>, which no boolean, number, string or array has.
\<close>

fun getProp :: "json \<Rightarrow> jsstring \<Rightarrow> exn + json" where
  "getProp JUndefined k = Inl TypeError"
| "getProp JNull k = Inl TypeError"
| "getProp (JObj kvs) k = Inr (case map_of kvs k of None \<Rightarrow> JUndefined | Some v \<Rightarrow> v)"
| "getProp (JBool b) k = Inr JUndefined"
| "getProp (JNum n) k = Inr JUndefined"
| "getProp (JStr s) k = Inr JUndefined"
| "getProp (JArr xs) k = Inr JUndefined"


section \<open>The state of the App component\<close>

text \<open>
  \<open>interface Message { type: 'user' | 'bot'; content: string; imageUrl?: string }\<close>.
  The content and the image URL of a turn built from a response are whatever the
  response carried, so both are JSON values; an absent \<open>imageUrl\<close> reads as \<open>undefined\<close>.
\<close>

datatype sender = User | Bot

record message =
  type :: sender
  content :: json
  imageUrl :: json

text \<open>The five \<open>useState\<close> cells of \<open>App\<close>, with their initial values.\<close>

record app_state =
  messages :: "message list"
  input :: jsstring
  location :: jsstring
  loading :: bool
  lastAnalysis :: json

definition initial :: app_state where
  "initial = \<lparr>messages = [], input = [], location = [], loading = False, lastAnalysis = JNull\<rparr>"

text \<open>
  \<open>setMessages(prev => ...)\<close> queues an updater, which React applies to the current
  transcript when it renders; an updater that throws makes the render throw, and the
  component is torn down.
\<close>

type_synonym updater = "message list \<Rightarrow> exn + message list"

fun applyUpdaters :: "updater list \<Rightarrow> message list \<Rightarrow> exn + message list" where
  "applyUpdaters [] ms = Inr ms"
| "applyUpdaters (u # us) ms =
     (case u ms of Inl e \<Rightarrow> Inl e | Inr ms' \<Rightarrow> applyUpdaters us ms')"

text \<open>
  The JSX of \<open>App\<close> shows every turn: \<open>{message.content}\<close> is a child of a
  \<open>Typography\<close>, and \<open>{message.imageUrl && (... <img src={message.imageUrl} /> ...)}\<close>
  shows the image of a turn whose \<open>imageUrl\<close> is truthy. There is no error boundary, so
  an error thrown while a turn is rendered tears the component down.

  A React child may be a string, a number, a boolean, \<open>null\<close>, \<open>undefined\<close> or an array
  of such children; a parsed JSON object is not a React element, and React throws on it.
\<close>

fun validChild :: "json \<Rightarrow> bool" where
  "validChild (JObj kvs) = False"
| "validChild (JArr xs) = list_all validChild xs"
| "validChild JUndefined = True"
| "validChild JNull = True"
| "validChild (JBool b) = True"
| "validChild (JNum n) = True"
| "validChild (JStr t) = True"

text \<open>
  The value of the \<open>src\<close> attribute is set to \<open>'' + value\<close>. The conversion of an object
  to a primitive calls its \<open>toString\<close>; a parsed JSON object with an entry \<open>toString\<close>
  has no callable one, and the conversion throws a TypeError. An array is joined, which
  converts its elements in the same way.
\<close>

fun stringCoercible :: "json \<Rightarrow> bool" where
  "stringCoercible (JObj kvs) = (map_of kvs (js ''toString'') = None)"
| "stringCoercible (JArr xs) = list_all stringCoercible xs"
| "stringCoercible JUndefined = True"
| "stringCoercible JNull = True"
| "stringCoercible (JBool b) = True"
| "stringCoercible (JNum n) = True"
| "stringCoercible (JStr t) = True"

definition renders :: "message \<Rightarrow> bool" where
  "renders m \<longleftrightarrow>
     validChild (content m) \<and>
     (if truthy (imageUrl m) then stringCoercible (imageUrl m) else True)"

text \<open>
  A state is the state of the mounted component: the turns of its transcript are on the
  screen, so each of them rendered when it was added. The render that follows an update
  shows the old turns again and the turns that the updaters added; it throws exactly when
  one of the added turns does not render.
\<close>

definition render :: "updater list \<Rightarrow> app_state \<Rightarrow> exn + app_state" where
  "render q s =
     (case applyUpdaters q (messages s) of
        Inl e \<Rightarrow> Inl e
      | Inr ms \<Rightarrow>
          if list_all renders (drop (length (messages s)) ms)
          then Inr (s\<lparr>messages := ms\<rparr>)
          else Inl RenderError)"


section \<open>onDrop\<close>

text \<open>
  An asynchronous handler is modelled by its two halves: the part that runs up to the
  \<open>await\<close>, which returns the request it sends (if any), and the part that runs when
  the request settles.
\<close>

datatype outcome = Rejected | Resolved json

text \<open>The form data of an upload: its entries, in order.\<close>

type_synonym 'f formData = "(jsstring \<times> 'f) list"

definition onDrop :: "'f list \<Rightarrow> app_state \<Rightarrow> app_state \<times> 'f formData option" where
  "onDrop acceptedFiles s =
     (if length acceptedFiles = 0 then (s, None)
      else
        let s1 = s\<lparr>loading := True\<rparr>;
            file = acceptedFiles ! 0;
            formData = [] @ [(js ''file'', file)]
        in (s1, Some formData))"

definition uploadedText :: json where
  "uploadedText = JStr (js ''Uploaded image for analysis'')"

definition uploadErrorText :: json where
  "uploadErrorText =
     JStr (js ''Sorry, there was an error processing your image. Please try again.'')"

text \<open>
  The \<open>try\<close> block after the request settled: the exception it ended with (if any), the
  state after the setters it reached, and the updaters it queued.
\<close>

definition onDrop_try :: "outcome \<Rightarrow> app_state \<Rightarrow> exn option \<times> app_state \<times> updater list" where
  "onDrop_try out s =
     (case out of
        Rejected \<Rightarrow> (Some RequestError, s, [])
      | Resolved data \<Rightarrow>
          (case getProp data (js ''last_analysis'') of
             Inl e \<Rightarrow> (Some e, s, [])
           | Inr la \<Rightarrow>
               let s1 = (if truthy la then s\<lparr>lastAnalysis := la\<rparr> else s);
                   u = (\<lambda>prev.
                          case getProp data (js ''image_url'') of
                            Inl e \<Rightarrow> Inl e
                          | Inr url \<Rightarrow>
                              (case getProp data (js ''response'') of
                                 Inl e \<Rightarrow> Inl e
                               | Inr r \<Rightarrow>
                                   Inr (prev @
                                     [\<lparr>type = User, content = uploadedText, imageUrl = url\<rparr>,
                                      \<lparr>type = Bot, content = r, imageUrl = JUndefined\<rparr>])))
               in (None, s1, [u])))"

definition onDrop_settled :: "outcome \<Rightarrow> app_state \<Rightarrow> exn + app_state" where
  "onDrop_settled out s =
     (case onDrop_try out s of
        (e, s1, q1) \<Rightarrow>
          let q2 = (case e of
                      None \<Rightarrow> q1
                    | Some err \<Rightarrow>
                        q1 @ [\<lambda>prev. Inr (prev @
                                [\<lparr>type = Bot, content = uploadErrorText, imageUrl = JUndefined\<rparr>])]);
              s2 = s1\<lparr>loading := False\<rparr>
          in render q2 s2)"

text \<open>The options passed to \<open>useDropzone\<close>.\<close>

record dropzoneOptions =
  accept :: "(jsstring \<times> jsstring list) list"
  maxFiles :: nat

definition dropzone :: dropzoneOptions where
  "dropzone =
     \<lparr>accept = [(js ''image/*'', [js ''.jpeg'', js ''.jpg'', js ''.png'', js ''.gif''])],
      maxFiles = 1\<rparr>"


section \<open>handleSendMessage\<close>

text \<open>
  The body posted to \<open>/chat\<close>. A field whose value is \<open>undefined\<close> is left out of the
  serialised body: \<open>None\<close> here.
\<close>

record chatRequest =
  message :: jsstring
  location_field :: "jsstring option"
  last_analysis :: json

definition chatErrorText :: json where
  "chatErrorText = JStr (js ''Sorry, I encountered an error. Please try again.'')"

text \<open>
  The part of \<open>handleSendMessage\<close> before the \<open>await\<close>. The turn it appends has a
  string as content and no image, so the render that follows cannot throw.
\<close>

definition handleSendMessage :: "app_state \<Rightarrow> app_state \<times> chatRequest option" where
  "handleSendMessage s =
     (if trim (input s) = [] then (s, None)
      else
        let userMessage = trim (input s);
            s1 = s\<lparr>input := []\<rparr>;
            s2 = s1\<lparr>messages := messages s1 @
                   [\<lparr>type = User, content = JStr userMessage, imageUrl = JUndefined\<rparr>]\<rparr>;
            s3 = s2\<lparr>loading := True\<rparr>
        in (s3,
            Some \<lparr>message = userMessage,
                  location_field = (if location s \<noteq> [] then Some (location s) else None),
                  last_analysis = lastAnalysis s\<rparr>))"

definition handleSendMessage_try ::
  "outcome \<Rightarrow> app_state \<Rightarrow> exn option \<times> app_state \<times> updater list" where
  "handleSendMessage_try out s =
     (case out of
        Rejected \<Rightarrow> (Some RequestError, s, [])
      | Resolved data \<Rightarrow>
          let u = (\<lambda>prev.
                     case getProp data (js ''response'') of
                       Inl e \<Rightarrow> Inl e
                     | Inr r \<Rightarrow> Inr (prev @ [\<lparr>type = Bot, content = r, imageUrl = JUndefined\<rparr>]))
          in (case getProp data (js ''last_analysis'') of
                Inl e \<Rightarrow> (Some e, s, [u])
              | Inr la \<Rightarrow>
                  (None, (if truthy la then s\<lparr>lastAnalysis := la\<rparr> else s), [u])))"

definition handleSendMessage_settled :: "outcome \<Rightarrow> app_state \<Rightarrow> exn + app_state" where
  "handleSendMessage_settled out s =
     (case handleSendMessage_try out s of
        (e, s1, q1) \<Rightarrow>
          let q2 = (case e of
                      None \<Rightarrow> q1
                    | Some err \<Rightarrow>
                        q1 @ [\<lambda>prev. Inr (prev @
                                [\<lparr>type = Bot, content = chatErrorText, imageUrl = JUndefined\<rparr>])]);
              s2 = s1\<lparr>loading := False\<rparr>
          in render q2 s2)"

text \<open>The \<open>disabled\<close> attribute of the Send button.\<close>

definition sendDisabled :: "app_state \<Rightarrow> bool" where
  "sendDisabled s \<longleftrightarrow> loading s \<or> trim (input s) = []"


section \<open>Everything that can happen to the component\<close>

text \<open>
  The two text fields change the input and the location; a drop and a send start a
  request; a request settles at any later moment, in any order with the others.
\<close>

datatype 'f event =
    ChangeInput jsstring
  | ChangeLocation jsstring
  | Drop "'f list"
  | UploadSettled outcome
  | Send
  | ChatSettled outcome

fun step :: "'f event \<Rightarrow> app_state \<Rightarrow> exn + app_state" where
  "step (ChangeInput v) s = Inr (s\<lparr>input := v\<rparr>)"
| "step (ChangeLocation v) s = Inr (s\<lparr>location := v\<rparr>)"
| "step (Drop files) s = Inr (fst (onDrop files s))"
| "step (UploadSettled out) s = onDrop_settled out s"
| "step Send s = Inr (fst (handleSendMessage s))"
| "step (ChatSettled out) s = handleSendMessage_settled out s"

fun run :: "'f event list \<Rightarrow> app_state \<Rightarrow> exn + app_state" where
  "run [] s = Inr s"
| "run (ev # evs) s = (case step ev s of Inl e \<Rightarrow> Inl e | Inr s' \<Rightarrow> run evs s')"


section \<open>The Feature Normalizer\<close>

text \<open>
  Modelled from the spec: the Feature Normalizer (section 4.1 of the specification) belongs
  to the backend, which is not among the source files. The definitions of this section
  follow the words of the specification: the data model of section 3 and the contract of
  \<open>normalize\<close>.
\<close>

text \<open>Modelled from the spec: the fixed taxonomy of issue categories, with \<open>other\<close>.\<close>

datatype label = StructuralDamage | WaterDamage | Mold | CosmeticWear | Other

text \<open>Modelled from the spec: the severity tiers.\<close>

datatype severity = Low | Medium | High

text \<open>Modelled from the spec: an Issue (section 3).\<close>

record issue =
  label :: label
  confidence :: real
  severity :: severity
  region :: "string option"

text \<open>
  Modelled from the spec: the severity bands are a configuration; the documented ones are
  0.75 for high and 0.4 for medium.
\<close>

record severityBands =
  highFrom :: real
  mediumFrom :: real

definition defaultBands :: severityBands where
  "defaultBands = \<lparr>highFrom = 0.75, mediumFrom = 0.4\<rparr>"

text \<open>
  Modelled from the spec: a raw label is matched against the taxonomy (exactly or through
  a synonym); one that is not in the taxonomy maps to \<open>other\<close>. The table of names is a
  parameter.
\<close>

definition canonical :: "(string \<rightharpoonup> label) \<Rightarrow> string \<Rightarrow> label" where
  "canonical taxonomy name = (case taxonomy name of Some l \<Rightarrow> l | None \<Rightarrow> Other)"

text \<open>Modelled from the spec: a table with the names that Scenario A uses.\<close>

definition exampleTaxonomy :: "string \<rightharpoonup> label" where
  "exampleTaxonomy =
     map_of
       [(''structural-damage'', StructuralDamage), (''crack'', StructuralDamage),
        (''water-damage'', WaterDamage), (''water stain'', WaterDamage),
        (''mold'', Mold),
        (''cosmetic-wear'', CosmeticWear)]"

text \<open>Modelled from the spec: a score outside [0,1] is clamped, not rejected.\<close>

definition clampScore :: "real \<Rightarrow> real" where
  "clampScore s = (if s < 0 then 0 else if 1 < s then 1 else s)"

text \<open>Modelled from the spec: the severity of a confidence, by threshold bands.\<close>

definition severityOf :: "severityBands \<Rightarrow> real \<Rightarrow> severity" where
  "severityOf bands c =
     (if highFrom bands \<le> c then High else if mediumFrom bands \<le> c then Medium else Low)"

text \<open>
  Modelled from the spec: the taxonomy priority, structural before water before mold
  before cosmetic before other.
\<close>

fun priority :: "label \<Rightarrow> nat" where
  "priority StructuralDamage = 0"
| "priority WaterDamage = 1"
| "priority Mold = 2"
| "priority CosmeticWear = 3"
| "priority Other = 4"

text \<open>
  Modelled from the spec: detections of one label are merged, keeping the maximum
  confidence.
\<close>

fun mergeDetection :: "label \<times> real \<Rightarrow> (label \<times> real) list \<Rightarrow> (label \<times> real) list" where
  "mergeDetection (l, c) [] = [(l, c)]"
| "mergeDetection (l, c) ((l', c') # rest) =
     (if l = l' then (l', max c' c) # rest else (l', c') # mergeDetection (l, c) rest)"

fun mergeDetections :: "(label \<times> real) list \<Rightarrow> (label \<times> real) list \<Rightarrow> (label \<times> real) list" where
  "mergeDetections acc [] = acc"
| "mergeDetections acc (d # ds) = mergeDetections (mergeDetection d acc) ds"

text \<open>
  Modelled from the spec: the output order, descending confidence with ties broken by the
  taxonomy priority, produced by an insertion sort.
\<close>

definition ranksBefore :: "issue \<Rightarrow> issue \<Rightarrow> bool" where
  "ranksBefore a b \<longleftrightarrow>
     confidence b < confidence a \<or>
     (confidence a = confidence b \<and> priority (label a) \<le> priority (label b))"

fun insertIssue :: "issue \<Rightarrow> issue list \<Rightarrow> issue list" where
  "insertIssue a [] = [a]"
| "insertIssue a (b # bs) = (if ranksBefore a b then a # b # bs else b # insertIssue a bs)"

fun sortIssues :: "issue list \<Rightarrow> issue list" where
  "sortIssues [] = []"
| "sortIssues (a # as) = insertIssue a (sortIssues as)"

text \<open>Modelled from the spec: the Issue of a merged detection; no region is known.\<close>

definition toIssue :: "severityBands \<Rightarrow> label \<times> real \<Rightarrow> issue" where
  "toIssue bands d =
     \<lparr>label = fst d, confidence = snd d, severity = severityOf bands (snd d), region = None\<rparr>"

text \<open>
  Modelled from the spec:
  \<open>normalize(rawDetections: sequence<(label, score)>) -> sequence<Issue>\<close>.
\<close>

definition normalize ::
  "severityBands \<Rightarrow> (string \<rightharpoonup> label) \<Rightarrow> (string \<times> real) list \<Rightarrow> issue list" where
  "normalize bands taxonomy rawDetections =
     sortIssues
       (map (toIssue bands)
          (mergeDetections []
             (map (\<lambda>(name, score). (canonical taxonomy name, clampScore score)) rawDetections)))"


section \<open>Facts about the handlers\<close>

lemma getProp_Inl: "getProp d k = Inl e \<Longrightarrow> (d = JUndefined \<or> d = JNull) \<and> e = TypeError"
  by (cases d) auto

lemma getProp_other_key: "getProp d k = Inr v \<Longrightarrow> \<exists>w. getProp d k' = Inr w"
  by (cases d) auto

lemma getProp_throws_all: "getProp d k = Inl e \<Longrightarrow> getProp d k' = Inl TypeError"
  by (cases d) auto

lemma onDrop_settled_Rejected:
  "onDrop_settled Rejected s =
     Inr (s\<lparr>messages := messages s @
            [\<lparr>type = Bot, content = uploadErrorText, imageUrl = JUndefined\<rparr>],
          loading := False\<rparr>)"
  by (simp add: onDrop_settled_def onDrop_try_def render_def renders_def uploadErrorText_def)

lemma onDrop_settled_throw:
  "getProp d (js ''last_analysis'') = Inl e \<Longrightarrow>
   onDrop_settled (Resolved d) s =
     Inr (s\<lparr>messages := messages s @
            [\<lparr>type = Bot, content = uploadErrorText, imageUrl = JUndefined\<rparr>],
          loading := False\<rparr>)"
  by (simp add: onDrop_settled_def onDrop_try_def render_def renders_def uploadErrorText_def)

lemma onDrop_settled_Resolved:
  assumes "getProp d (js ''last_analysis'') = Inr la"
    and "getProp d (js ''image_url'') = Inr url"
    and "getProp d (js ''response'') = Inr r"
  shows "onDrop_settled (Resolved d) s =
     (if validChild r \<and> (truthy url \<longrightarrow> stringCoercible url)
      then Inr (s\<lparr>lastAnalysis := (if truthy la then la else lastAnalysis s),
                 messages := messages s @
                   [\<lparr>type = User, content = uploadedText, imageUrl = url\<rparr>,
                    \<lparr>type = Bot, content = r, imageUrl = JUndefined\<rparr>],
                 loading := False\<rparr>)
      else Inl RenderError)"
  using assms
  by (simp add: onDrop_settled_def onDrop_try_def render_def renders_def uploadedText_def Let_def)

lemma handleSendMessage_settled_Rejected:
  "handleSendMessage_settled Rejected s =
     Inr (s\<lparr>messages := messages s @
            [\<lparr>type = Bot, content = chatErrorText, imageUrl = JUndefined\<rparr>],
          loading := False\<rparr>)"
  by (simp add: handleSendMessage_settled_def handleSendMessage_try_def render_def renders_def
      chatErrorText_def)

lemma handleSendMessage_settled_throw:
  "getProp d (js ''last_analysis'') = Inl e \<Longrightarrow>
   handleSendMessage_settled (Resolved d) s = Inl TypeError"
  using getProp_throws_all [of d "js ''last_analysis''" e "js ''response''"]
  by (simp add: handleSendMessage_settled_def handleSendMessage_try_def render_def Let_def)

lemma handleSendMessage_settled_Resolved:
  assumes "getProp d (js ''last_analysis'') = Inr la"
    and "getProp d (js ''response'') = Inr r"
  shows "handleSendMessage_settled (Resolved d) s =
     (if validChild r
      then Inr (s\<lparr>lastAnalysis := (if truthy la then la else lastAnalysis s),
                 messages := messages s @ [\<lparr>type = Bot, content = r, imageUrl = JUndefined\<rparr>],
                 loading := False\<rparr>)
      else Inl RenderError)"
  using assms
  by (simp add: handleSendMessage_settled_def handleSendMessage_try_def render_def renders_def
      Let_def)

lemma handleSendMessage_empty:
  "trim (input s) = [] \<Longrightarrow> handleSendMessage s = (s, None)"
  by (simp add: handleSendMessage_def)

lemma handleSendMessage_nonempty:
  "trim (input s) \<noteq> [] \<Longrightarrow>
   handleSendMessage s =
     (s\<lparr>input := [],
        messages := messages s @
          [\<lparr>type = User, content = JStr (trim (input s)), imageUrl = JUndefined\<rparr>],
        loading := True\<rparr>,
      Some \<lparr>message = trim (input s),
            location_field = (if location s \<noteq> [] then Some (location s) else None),
            last_analysis = lastAnalysis s\<rparr>)"
  by (simp add: handleSendMessage_def Let_def)

lemma step_effect:
  assumes "step ev s = Inr s'"
  shows "prefix (messages s) (messages s') \<and>
     (lastAnalysis s' = lastAnalysis s \<or>
      (\<exists>d. (ev = UploadSettled (Resolved d) \<or> ev = ChatSettled (Resolved d)) \<and>
           getProp d (js ''last_analysis'') = Inr (lastAnalysis s') \<and>
           truthy (lastAnalysis s')))"
proof (cases ev)
  case (ChangeInput v)
  with assms show ?thesis by auto
next
  case (ChangeLocation v)
  with assms show ?thesis by auto
next
  case (Drop files)
  with assms show ?thesis by (auto simp: onDrop_def Let_def)
next
  case Send
  with assms show ?thesis
    by (cases "trim (input s) = []")
       (auto simp: handleSendMessage_empty handleSendMessage_nonempty)
next
  case (UploadSettled out)
  show ?thesis
  proof (cases out)
    case Rejected
    with assms UploadSettled show ?thesis by (auto simp: onDrop_settled_Rejected)
  next
    case (Resolved d)
    show ?thesis
    proof (cases "getProp d (js ''last_analysis'')")
      case (Inl e)
      with assms UploadSettled Resolved show ?thesis by (auto simp: onDrop_settled_throw)
    next
      case (Inr la)
      obtain url where u: "getProp d (js ''image_url'') = Inr url"
        using getProp_other_key [OF Inr] by blast
      obtain r where r: "getProp d (js ''response'') = Inr r"
        using getProp_other_key [OF Inr] by blast
      from onDrop_settled_Resolved [OF Inr u r, of s] assms UploadSettled Resolved Inr
      show ?thesis by (cases "truthy la") (auto split: if_splits)
    qed
  qed
next
  case (ChatSettled out)
  show ?thesis
  proof (cases out)
    case Rejected
    with assms ChatSettled show ?thesis by (auto simp: handleSendMessage_settled_Rejected)
  next
    case (Resolved d)
    show ?thesis
    proof (cases "getProp d (js ''last_analysis'')")
      case (Inl e)
      with assms ChatSettled Resolved show ?thesis by (auto simp: handleSendMessage_settled_throw)
    next
      case (Inr la)
      obtain r where r: "getProp d (js ''response'') = Inr r"
        using getProp_other_key [OF Inr] by blast
      from handleSendMessage_settled_Resolved [OF Inr r, of s] assms ChatSettled Resolved Inr
      show ?thesis by (cases "truthy la") (auto split: if_splits)
    qed
  qed
qed

lemma run_effect:
  "run evs s = Inr s' \<Longrightarrow>
   prefix (messages s) (messages s') \<and>
     (lastAnalysis s' = lastAnalysis s \<or>
      (\<exists>d. (UploadSettled (Resolved d) \<in> set evs \<or> ChatSettled (Resolved d) \<in> set evs) \<and>
           getProp d (js ''last_analysis'') = Inr (lastAnalysis s') \<and>
           truthy (lastAnalysis s')))"
proof (induction evs arbitrary: s)
  case Nil
  then show ?case by simp
next
  case (Cons ev evs)
  then obtain s1 where s1: "step ev s = Inr s1" and r: "run evs s1 = Inr s'"
    by (auto split: sum.splits)
  from step_effect [OF s1] Cons.IH [OF r] show ?case
    by (auto intro: prefix_order.trans)
qed


lemma render_whole_transcript:
  assumes "list_all renders (messages s)"
    and "applyUpdaters q (messages s) = Inr (messages s @ new)"
  shows "render q s =
     (if list_all renders (messages s @ new) then Inr (s\<lparr>messages := messages s @ new\<rparr>)
      else Inl RenderError)"
  using assms by (simp add: render_def)

lemma step_added:
  assumes "step ev s = Inr s'"
  shows "\<exists>new. messages s' = messages s @ new \<and> list_all renders new"
proof (cases ev)
  case (ChangeInput v)
  with assms show ?thesis by auto
next
  case (ChangeLocation v)
  with assms show ?thesis by auto
next
  case (Drop files)
  with assms show ?thesis by (auto simp: onDrop_def Let_def)
next
  case Send
  with assms show ?thesis
    by (cases "trim (input s) = []")
       (auto simp: handleSendMessage_empty handleSendMessage_nonempty renders_def)
next
  case (UploadSettled out)
  show ?thesis
  proof (cases out)
    case Rejected
    with assms UploadSettled show ?thesis
      by (auto simp: onDrop_settled_Rejected renders_def uploadErrorText_def)
  next
    case (Resolved d)
    show ?thesis
    proof (cases "getProp d (js ''last_analysis'')")
      case (Inl e)
      with assms UploadSettled Resolved show ?thesis
        by (auto simp: onDrop_settled_throw renders_def uploadErrorText_def)
    next
      case (Inr la)
      obtain url where u: "getProp d (js ''image_url'') = Inr url"
        using getProp_other_key [OF Inr] by blast
      obtain r where r: "getProp d (js ''response'') = Inr r"
        using getProp_other_key [OF Inr] by blast
      from onDrop_settled_Resolved [OF Inr u r, of s] assms UploadSettled Resolved
      show ?thesis
        by (auto simp: renders_def uploadedText_def split: if_splits)
    qed
  qed
next
  case (ChatSettled out)
  show ?thesis
  proof (cases out)
    case Rejected
    with assms ChatSettled show ?thesis
      by (auto simp: handleSendMessage_settled_Rejected renders_def chatErrorText_def)
  next
    case (Resolved d)
    show ?thesis
    proof (cases "getProp d (js ''last_analysis'')")
      case (Inl e)
      with assms ChatSettled Resolved show ?thesis
        by (auto simp: handleSendMessage_settled_throw)
    next
      case (Inr la)
      obtain r where r: "getProp d (js ''response'') = Inr r"
        using getProp_other_key [OF Inr] by blast
      from handleSendMessage_settled_Resolved [OF Inr r, of s] assms ChatSettled Resolved
      show ?thesis
        by (auto simp: renders_def split: if_splits)
    qed
  qed
qed

lemma run_mounted:
  "list_all renders (messages s) \<Longrightarrow> run evs s = Inr s' \<Longrightarrow> list_all renders (messages s')"
proof (induction evs arbitrary: s)
  case Nil
  then show ?case by simp
next
  case (Cons ev evs)
  from Cons.prems(2) obtain s1 where s1: "step ev s = Inr s1" and r: "run evs s1 = Inr s'"
    by (auto split: sum.splits)
  from step_added [OF s1] Cons.prems(1) have "list_all renders (messages s1)"
    by auto
  then show ?case
    using r by (rule Cons.IH)
qed


section \<open>Facts about the normalizer\<close>

lemma fst_set_mergeDetection:
  "fst ` set (mergeDetection d acc) = insert (fst d) (fst ` set acc)"
  by (induction d acc rule: mergeDetection.induct) auto

lemma distinct_mergeDetection:
  "distinct (map fst acc) \<Longrightarrow> distinct (map fst (mergeDetection d acc))"
proof (induction d acc rule: mergeDetection.induct)
  case (1 l c)
  then show ?case by simp
next
  case (2 l c l' c' rest)
  have "fst ` set (mergeDetection (l, c) rest) = insert l (fst ` set rest)"
    using fst_set_mergeDetection [of "(l, c)" rest] by simp
  with 2 show ?case by auto
qed

lemma map_of_mergeDetection:
  "map_of (mergeDetection (l, c) acc) k =
     (if k = l then (case map_of acc l of None \<Rightarrow> Some c | Some c' \<Rightarrow> Some (max c' c))
      else map_of acc k)"
  by (induction "(l, c)" acc rule: mergeDetection.induct) auto

lemma distinct_mergeDetections:
  "distinct (map fst acc) \<Longrightarrow> distinct (map fst (mergeDetections acc ds))"
  by (induction ds arbitrary: acc) (auto simp: distinct_mergeDetection)

lemma fst_set_mergeDetections:
  "fst ` set (mergeDetections acc ds) = fst ` set acc \<union> fst ` set ds"
  by (induction ds arbitrary: acc) (auto simp: fst_set_mergeDetection)


lemma Max_insert_max:
  "finite S \<Longrightarrow> Max (insert (max a b) S) = Max (insert a (insert b S))"
  for a :: real
  by (cases "S = {}") (simp_all add: max.assoc)

lemma map_of_mergeDetections:
  "map_of (mergeDetections acc ds) l =
     (let all = (case map_of acc l of None \<Rightarrow> [] | Some c0 \<Rightarrow> [c0]) @ map snd (filter (\<lambda>d. fst d = l) ds)
      in if all = [] then None else Some (Max (set all)))"
proof (induction ds arbitrary: acc)
  case Nil
  then show ?case by (simp add: split: option.splits)
next
  case (Cons d ds)
  obtain l1 c1 where d: "d = (l1, c1)" by (cases d)
  show ?case
  proof (cases "l1 = l")
    case True
    then show ?thesis
      using Max_insert_max [of "set (map snd (filter (\<lambda>d. fst d = l) ds))"]
      by (simp add: Cons.IH d map_of_mergeDetection insert_commute
          split: option.splits)
  next
    case False
    then show ?thesis
      by (simp add: Cons.IH d map_of_mergeDetection)
  qed
qed

lemma merged_score:
  assumes "(l, c) \<in> set (mergeDetections [] ds)"
  shows "c = Max {c'. (l, c') \<in> set ds}"
proof -
  have "distinct (map fst (mergeDetections [] ds))"
    by (simp add: distinct_mergeDetections)
  with assms have "map_of (mergeDetections [] ds) l = Some c"
    by simp
  moreover have "set (map snd (filter (\<lambda>d. fst d = l) ds)) = {c'. (l, c') \<in> set ds}"
    by (auto simp: image_iff)
  ultimately show ?thesis
    by (simp add: map_of_mergeDetections Let_def split: if_splits)
qed

lemma set_insertIssue: "set (insertIssue a bs) = insert a (set bs)"
  by (induction bs) auto

lemma set_sortIssues: "set (sortIssues xs) = set xs"
  by (induction xs) (auto simp: set_insertIssue)

lemma distinct_insertIssue:
  "distinct (map label (insertIssue a bs)) \<longleftrightarrow> label a \<notin> label ` set bs \<and> distinct (map label bs)"
  by (induction bs) (auto simp: set_insertIssue)

lemma distinct_sortIssues: "distinct (map label (sortIssues xs)) \<longleftrightarrow> distinct (map label xs)"
  by (induction xs) (auto simp: distinct_insertIssue set_sortIssues)

lemma ranksBefore_total: "\<not> ranksBefore a b \<Longrightarrow> ranksBefore b a"
  by (auto simp: ranksBefore_def)

lemma ranksBefore_trans: "ranksBefore a b \<Longrightarrow> ranksBefore b c \<Longrightarrow> ranksBefore a c"
  by (auto simp: ranksBefore_def)

lemma sorted_insertIssue:
  "sorted_wrt ranksBefore bs \<Longrightarrow> sorted_wrt ranksBefore (insertIssue a bs)"
proof (induction bs)
  case Nil
  then show ?case by simp
next
  case (Cons b bs)
  show ?case
  proof (cases "ranksBefore a b")
    case True
    with Cons.prems show ?thesis
      by (auto intro: ranksBefore_trans)
  next
    case False
    with Cons show ?thesis
      by (auto simp: set_insertIssue dest: ranksBefore_total)
  qed
qed

lemma sorted_sortIssues: "sorted_wrt ranksBefore (sortIssues xs)"
  by (induction xs) (auto simp: sorted_insertIssue)

lemma sorted_wrt_distinct_key:
  "sorted_wrt P xs \<Longrightarrow> distinct (map f xs) \<Longrightarrow> sorted_wrt (\<lambda>a b. P a b \<and> f a \<noteq> f b) xs"
  by (induction xs) auto

lemma priority_inj: "priority a = priority b \<Longrightarrow> a = b"
  by (cases a; cases b) simp_all

lemma label_toIssue: "label (toIssue bands d) = fst d"
  by (simp add: toIssue_def)

lemma distinct_labels_normalize: "distinct (map label (normalize bands taxonomy raw))"
proof -
  have "map label (map (toIssue bands) ds) = map fst ds" for ds
    by (simp add: label_toIssue)
  then show ?thesis
    by (simp add: normalize_def distinct_sortIssues distinct_mergeDetections del: map_map)
qed

lemma labels_normalize:
  "label ` set (normalize bands taxonomy raw) = canonical taxonomy ` fst ` set raw"
proof -
  have "label ` toIssue bands ` S = fst ` S" for S
    by (simp add: image_image label_toIssue)
  then show ?thesis
    by (force simp: normalize_def set_sortIssues fst_set_mergeDetections image_image)
qed

lemma confidence_normalize:
  assumes "i \<in> set (normalize bands taxonomy raw)"
  shows "confidence i =
    Max {clampScore s | name s. (name, s) \<in> set raw \<and> canonical taxonomy name = label i}"
proof -
  let ?ds = "map (\<lambda>(name, score). (canonical taxonomy name, clampScore score)) raw"
  from assms obtain d where d: "d \<in> set (mergeDetections [] ?ds)" and i: "i = toIssue bands d"
    by (auto simp: normalize_def set_sortIssues)
  then have "(label i, confidence i) \<in> set (mergeDetections [] ?ds)"
    by (simp add: toIssue_def)
  then have "confidence i = Max {c'. (label i, c') \<in> set ?ds}"
    by (rule merged_score)
  moreover have "{c'. (label i, c') \<in> set ?ds} =
      {clampScore s | name s. (name, s) \<in> set raw \<and> canonical taxonomy name = label i}"
    by (force simp: image_iff)
  ultimately show ?thesis by simp
qed


section \<open>The claims about the stored analysis\<close>

text \<open>
  C1, as the code has it. Let the response of an upload or of a chat carry a truthy
  \<open>last_analysis\<close>. Handling it tears the component down when its reply does not
  render, and otherwise leaves exactly that record in \<open>lastAnalysis\<close>, whole. From the
  state it leaves, every message that is not blank is sent with that record as its
  \<open>last_analysis\<close>. Whatever happens later, \<open>lastAnalysis\<close> is that record unless a
  response handled later put its own record there: the response handled last wins.
\<close>

theorem store_last_handled_wins:
  assumes "getProp d (js ''last_analysis'') = Inr a"
    and "truthy a"
    and "getProp d (js ''response'') = Inr r"
    and "getProp d (js ''image_url'') = Inr url"
  shows "onDrop_settled (Resolved d) s =
       (if validChild r \<and> (truthy url \<longrightarrow> stringCoercible url)
        then Inr (s\<lparr>lastAnalysis := a,
                   messages := messages s @
                     [\<lparr>type = User, content = uploadedText, imageUrl = url\<rparr>,
                      \<lparr>type = Bot, content = r, imageUrl = JUndefined\<rparr>],
                   loading := False\<rparr>)
        else Inl RenderError) \<and>
     handleSendMessage_settled (Resolved d) s =
       (if validChild r
        then Inr (s\<lparr>lastAnalysis := a,
                   messages := messages s @ [\<lparr>type = Bot, content = r, imageUrl = JUndefined\<rparr>],
                   loading := False\<rparr>)
        else Inl RenderError) \<and>
     (\<forall>ev s1. (ev = UploadSettled (Resolved d) \<or> ev = ChatSettled (Resolved d)) \<and>
          step ev s = Inr s1 \<longrightarrow>
        lastAnalysis s1 = a \<and>
        (\<forall>v. trim v \<noteq> [] \<longrightarrow>
           (\<exists>s2 rq. handleSendMessage (s1\<lparr>input := v\<rparr>) = (s2, Some rq) \<and>
                    message rq = trim v \<and> last_analysis rq = a)) \<and>
        (\<forall>evs s3. run evs s1 = Inr s3 \<longrightarrow>
           lastAnalysis s3 = a \<or>
           (\<exists>d'. (UploadSettled (Resolved d') \<in> set evs \<or> ChatSettled (Resolved d') \<in> set evs) \<and>
                 getProp d' (js ''last_analysis'') = Inr (lastAnalysis s3) \<and>
                 truthy (lastAnalysis s3))))"
proof (intro conjI allI impI)
  show up: "onDrop_settled (Resolved d) s =
       (if validChild r \<and> (truthy url \<longrightarrow> stringCoercible url)
        then Inr (s\<lparr>lastAnalysis := a,
                   messages := messages s @
                     [\<lparr>type = User, content = uploadedText, imageUrl = url\<rparr>,
                      \<lparr>type = Bot, content = r, imageUrl = JUndefined\<rparr>],
                   loading := False\<rparr>)
        else Inl RenderError)"
    using onDrop_settled_Resolved [OF assms(1) assms(4) assms(3), of s] assms(2) by simp
  show ch: "handleSendMessage_settled (Resolved d) s =
       (if validChild r
        then Inr (s\<lparr>lastAnalysis := a,
                   messages := messages s @ [\<lparr>type = Bot, content = r, imageUrl = JUndefined\<rparr>],
                   loading := False\<rparr>)
        else Inl RenderError)"
    using handleSendMessage_settled_Resolved [OF assms(1) assms(3), of s] assms(2) by simp
  fix ev :: "'f event" and s1
  assume h: "(ev = UploadSettled (Resolved d) \<or> ev = ChatSettled (Resolved d)) \<and>
      step ev s = Inr s1"
  with up ch show a: "lastAnalysis s1 = a"
    by (auto split: if_splits)
  show "\<exists>s2 rq. handleSendMessage (s1\<lparr>input := v\<rparr>) = (s2, Some rq) \<and>
      message rq = trim v \<and> last_analysis rq = a"
    if "trim v \<noteq> []" for v
    using handleSendMessage_nonempty [of "s1\<lparr>input := v\<rparr>"] that a by simp
  show "lastAnalysis s3 = a \<or>
      (\<exists>d'. (UploadSettled (Resolved d') \<in> set evs \<or> ChatSettled (Resolved d') \<in> set evs) \<and>
            getProp d' (js ''last_analysis'') = Inr (lastAnalysis s3) \<and>
            truthy (lastAnalysis s3))"
    if "run evs s1 = Inr s3" for evs :: "'g event list" and s3
    using run_effect [OF that] a by auto
qed

theorem store_last_handled_wins_witness:
  "handleSendMessage_settled
     (Resolved (JObj [(js ''last_analysis'', JObj [(js ''mold'', JNum 1)]),
                      (js ''response'', JStr (js ''Mold found''))]))
     initial
   = Inr (initial\<lparr>lastAnalysis := JObj [(js ''mold'', JNum 1)],
            messages := [\<lparr>type = Bot, content = JStr (js ''Mold found''), imageUrl = JUndefined\<rparr>],
            loading := False\<rparr>) \<and>
   (\<exists>s2 rq.
      handleSendMessage
        (initial\<lparr>lastAnalysis := JObj [(js ''mold'', JNum 1)],
           messages := [\<lparr>type = Bot, content = JStr (js ''Mold found''), imageUrl = JUndefined\<rparr>],
           loading := False,
           input := js ''cost?''\<rparr>)
      = (s2, Some rq) \<and>
      message rq = js ''cost?'' \<and>
      last_analysis rq = JObj [(js ''mold'', JNum 1)])"
proof -
  let ?a = "JObj [(js ''mold'', JNum 1)]"
  let ?d = "JObj [(js ''last_analysis'', ?a), (js ''response'', JStr (js ''Mold found''))]"
  let ?s1 = "initial\<lparr>lastAnalysis := ?a,
      messages := [\<lparr>type = Bot, content = JStr (js ''Mold found''), imageUrl = JUndefined\<rparr>],
      loading := False\<rparr>"
  have g: "getProp ?d (js ''last_analysis'') = Inr ?a"
    by simp
  have t: "truthy ?a"
    by simp
  have r: "getProp ?d (js ''response'') = Inr (JStr (js ''Mold found''))"
    by (simp add: js_def)
  have u: "getProp ?d (js ''image_url'') = Inr JUndefined"
    by (simp add: js_def)
  note th = store_last_handled_wins [OF g t r u, of initial]
  have m: "messages initial = []"
    by (simp add: initial_def)
  from th [THEN conjunct2, THEN conjunct1]
  have c: "handleSendMessage_settled (Resolved ?d) initial = Inr ?s1"
    by (simp add: m)
  then have st: "step (ChatSettled (Resolved ?d) :: unit event) initial = Inr ?s1"
    by simp
  have tr: "trim (js ''cost?'') = js ''cost?''"
    by (simp add: trim_def js_def isWhiteSpace_def)
  have ne: "trim (js ''cost?'') \<noteq> []"
    by (simp add: trim_def js_def isWhiteSpace_def)
  from th st have "\<forall>v. trim v \<noteq> [] \<longrightarrow>
      (\<exists>s2 rq. handleSendMessage (?s1\<lparr>input := v\<rparr>) = (s2, Some rq) \<and>
               message rq = trim v \<and> last_analysis rq = ?a)"
    by blast
  with ne have "\<exists>s2 rq. handleSendMessage (?s1\<lparr>input := js ''cost?''\<rparr>) = (s2, Some rq) \<and>
      message rq = trim (js ''cost?'') \<and> last_analysis rq = ?a"
    by blast
  with c show ?thesis
    by (simp only: tr)
qed

text \<open>
  C1 as stated fails when two uploads are answered out of order. The record of the second
  upload was created at 2 and its response is handled first; the record of the first
  upload was created at 1 and its response is handled after it. After the put of the
  second record, \<open>lastAnalysis\<close> holds the first one, which is neither that record nor a
  newer one.
\<close>

theorem store_visibility_counterexample:
  "(\<exists>s1. run [Drop [1 :: nat], Drop [2],
             UploadSettled (Resolved (JObj [(js ''last_analysis'', JObj [(js ''createdAt'', JNum 2)])]))]
        initial = Inr s1 \<and>
      lastAnalysis s1 = JObj [(js ''createdAt'', JNum 2)]) \<and>
   (\<exists>s2. run [Drop [1 :: nat], Drop [2],
             UploadSettled (Resolved (JObj [(js ''last_analysis'', JObj [(js ''createdAt'', JNum 2)])])),
             UploadSettled (Resolved (JObj [(js ''last_analysis'', JObj [(js ''createdAt'', JNum 1)])]))]
        initial = Inr s2 \<and>
      lastAnalysis s2 = JObj [(js ''createdAt'', JNum 1)]) \<and>
   JObj [(js ''createdAt'', JNum 1)] \<noteq> JObj [(js ''createdAt'', JNum 2)] \<and>
   (1 :: rat) < 2"
  by (simp add: onDrop_def onDrop_settled_def onDrop_try_def render_def renders_def
      uploadedText_def initial_def js_def Let_def)

text \<open>
  C8. Once \<open>lastAnalysis\<close> is not \<open>null\<close>, it never is again: over any sequence of
  events it changes only to the truthy \<open>last_analysis\<close> of a response handled in between.
  A response whose \<open>last_analysis\<close> is falsy or missing leaves the previous analysis in
  place: handling it changes the transcript and the loading flag only (or tears the
  component down, when its reply does not render).
\<close>

theorem lastAnalysis_stays_non_null:
  assumes "run evs s = Inr s'"
  shows "(lastAnalysis s \<noteq> JNull \<longrightarrow> lastAnalysis s' \<noteq> JNull) \<and>
     (lastAnalysis s' \<noteq> lastAnalysis s \<longrightarrow>
        truthy (lastAnalysis s') \<and>
        (\<exists>d. (UploadSettled (Resolved d) \<in> set evs \<or> ChatSettled (Resolved d) \<in> set evs) \<and>
             getProp d (js ''last_analysis'') = Inr (lastAnalysis s'))) \<and>
     (\<forall>d la r url.
        getProp d (js ''last_analysis'') = Inr la \<and> \<not> truthy la \<and>
        getProp d (js ''response'') = Inr r \<and> getProp d (js ''image_url'') = Inr url \<longrightarrow>
        onDrop_settled (Resolved d) s =
          (if validChild r \<and> (truthy url \<longrightarrow> stringCoercible url)
           then Inr (s\<lparr>messages := messages s @
                        [\<lparr>type = User, content = uploadedText, imageUrl = url\<rparr>,
                         \<lparr>type = Bot, content = r, imageUrl = JUndefined\<rparr>],
                      loading := False\<rparr>)
           else Inl RenderError) \<and>
        handleSendMessage_settled (Resolved d) s =
          (if validChild r
           then Inr (s\<lparr>messages := messages s @
                        [\<lparr>type = Bot, content = r, imageUrl = JUndefined\<rparr>],
                      loading := False\<rparr>)
           else Inl RenderError))"
proof (intro conjI allI impI)
  show "lastAnalysis s' \<noteq> JNull" if "lastAnalysis s \<noteq> JNull"
    using run_effect [OF assms] that by (cases "lastAnalysis s'") auto
  show "truthy (lastAnalysis s')" if "lastAnalysis s' \<noteq> lastAnalysis s"
    using run_effect [OF assms] that by auto
  show "\<exists>d. (UploadSettled (Resolved d) \<in> set evs \<or> ChatSettled (Resolved d) \<in> set evs) \<and>
      getProp d (js ''last_analysis'') = Inr (lastAnalysis s')"
    if "lastAnalysis s' \<noteq> lastAnalysis s"
    using run_effect [OF assms] that by auto
next
  fix d la r url
  assume h: "getProp d (js ''last_analysis'') = Inr la \<and> \<not> truthy la \<and>
      getProp d (js ''response'') = Inr r \<and> getProp d (js ''image_url'') = Inr url"
  then have g: "getProp d (js ''last_analysis'') = Inr la" and f: "\<not> truthy la"
    and r: "getProp d (js ''response'') = Inr r" and u: "getProp d (js ''image_url'') = Inr url"
    by simp_all
  show "onDrop_settled (Resolved d) s =
      (if validChild r \<and> (truthy url \<longrightarrow> stringCoercible url)
       then Inr (s\<lparr>messages := messages s @
                    [\<lparr>type = User, content = uploadedText, imageUrl = url\<rparr>,
                     \<lparr>type = Bot, content = r, imageUrl = JUndefined\<rparr>],
                  loading := False\<rparr>)
       else Inl RenderError)"
    using onDrop_settled_Resolved [OF g u r, of s] f by simp
  show "handleSendMessage_settled (Resolved d) s =
      (if validChild r
       then Inr (s\<lparr>messages := messages s @
                    [\<lparr>type = Bot, content = r, imageUrl = JUndefined\<rparr>],
                  loading := False\<rparr>)
       else Inl RenderError)"
    using handleSendMessage_settled_Resolved [OF g r, of s] f by simp
qed

theorem lastAnalysis_stays_non_null_witness:
  "run [UploadSettled (Resolved (JObj [(js ''response'', JStr (js ''ok''))])) :: unit event,
        ChatSettled Rejected]
     (initial\<lparr>lastAnalysis := JObj []\<rparr>)
   = Inr (initial\<lparr>lastAnalysis := JObj [],
            messages :=
              [\<lparr>type = User, content = uploadedText, imageUrl = JUndefined\<rparr>,
               \<lparr>type = Bot, content = JStr (js ''ok''), imageUrl = JUndefined\<rparr>,
               \<lparr>type = Bot, content = chatErrorText, imageUrl = JUndefined\<rparr>]\<rparr>) \<and>
   lastAnalysis (initial\<lparr>lastAnalysis := JObj []\<rparr>) \<noteq> JNull \<and>
   lastAnalysis (initial\<lparr>lastAnalysis := JObj [],
            messages :=
              [\<lparr>type = User, content = uploadedText, imageUrl = JUndefined\<rparr>,
               \<lparr>type = Bot, content = JStr (js ''ok''), imageUrl = JUndefined\<rparr>,
               \<lparr>type = Bot, content = chatErrorText, imageUrl = JUndefined\<rparr>]\<rparr>) \<noteq> JNull \<and>
   handleSendMessage_settled (Resolved (JObj [(js ''response'', JStr (js ''ok''))]))
     (initial\<lparr>lastAnalysis := JObj []\<rparr>)
   = Inr (initial\<lparr>lastAnalysis := JObj [],
            messages := [\<lparr>type = Bot, content = JStr (js ''ok''), imageUrl = JUndefined\<rparr>],
            loading := False\<rparr>)"
proof -
  let ?d = "JObj [(js ''response'', JStr (js ''ok''))]"
  let ?evs = "[UploadSettled (Resolved ?d) :: unit event, ChatSettled Rejected]"
  let ?s = "initial\<lparr>lastAnalysis := JObj []\<rparr>"
  let ?t = "initial\<lparr>lastAnalysis := JObj [],
            messages :=
              [\<lparr>type = User, content = uploadedText, imageUrl = JUndefined\<rparr>,
               \<lparr>type = Bot, content = JStr (js ''ok''), imageUrl = JUndefined\<rparr>,
               \<lparr>type = Bot, content = chatErrorText, imageUrl = JUndefined\<rparr>]\<rparr>"
  have run: "run ?evs ?s = Inr ?t"
    by (simp add: onDrop_settled_def onDrop_try_def handleSendMessage_settled_def
        handleSendMessage_try_def render_def renders_def uploadedText_def chatErrorText_def
        initial_def js_def)
  have n: "lastAnalysis ?s \<noteq> JNull"
    by simp
  have g: "getProp ?d (js ''last_analysis'') = Inr JUndefined"
    by (simp add: js_def)
  have r: "getProp ?d (js ''response'') = Inr (JStr (js ''ok''))"
    by simp
  have u: "getProp ?d (js ''image_url'') = Inr JUndefined"
    by (simp add: js_def)
  have m: "messages ?s = []"
    by (simp add: initial_def)
  note th = lastAnalysis_stays_non_null [OF run]
  from th n have 1: "lastAnalysis ?t \<noteq> JNull"
    by blast
  from th g r u have "handleSendMessage_settled (Resolved ?d) ?s =
      (if validChild (JStr (js ''ok''))
       then Inr (?s\<lparr>messages := messages ?s @
                    [\<lparr>type = Bot, content = JStr (js ''ok''), imageUrl = JUndefined\<rparr>],
                  loading := False\<rparr>)
       else Inl RenderError)"
    by (metis truthy.simps(1))
  then have 2: "handleSendMessage_settled (Resolved ?d) ?s =
      Inr (initial\<lparr>lastAnalysis := JObj [],
            messages := [\<lparr>type = Bot, content = JStr (js ''ok''), imageUrl = JUndefined\<rparr>],
            loading := False\<rparr>)"
    by (simp add: m)
  from run n 1 2 show ?thesis
    by blast
qed

section \<open>The claims about the transcript\<close>

text \<open>
  C6. The transcript is append-only: over any sequence of events (typing, drops, sends,
  responses and failures, in any order) that leaves the component running, the transcript
  before is a prefix of the transcript after; no turn is removed, moved or rewritten.
\<close>

theorem transcript_append_only:
  assumes "run evs s = Inr s'"
  shows "prefix (messages s) (messages s')"
  using run_effect [OF assms] by blast

theorem transcript_append_only_witness:
  "run [ChangeInput (js ''hi''), Send :: unit event, ChatSettled Rejected]
     (initial\<lparr>messages := [\<lparr>type = Bot, content = JStr (js ''hello''), imageUrl = JUndefined\<rparr>]\<rparr>)
   = Inr (initial\<lparr>messages :=
            [\<lparr>type = Bot, content = JStr (js ''hello''), imageUrl = JUndefined\<rparr>,
             \<lparr>type = User, content = JStr (js ''hi''), imageUrl = JUndefined\<rparr>,
             \<lparr>type = Bot, content = chatErrorText, imageUrl = JUndefined\<rparr>]\<rparr>) \<and>
   prefix [\<lparr>type = Bot, content = JStr (js ''hello''), imageUrl = JUndefined\<rparr>]
     [\<lparr>type = Bot, content = JStr (js ''hello''), imageUrl = JUndefined\<rparr>,
      \<lparr>type = User, content = JStr (js ''hi''), imageUrl = JUndefined\<rparr>,
      \<lparr>type = Bot, content = chatErrorText, imageUrl = JUndefined\<rparr>]"
proof -
  let ?evs = "[ChangeInput (js ''hi''), Send :: unit event, ChatSettled Rejected]"
  let ?s = "initial\<lparr>messages := [\<lparr>type = Bot, content = JStr (js ''hello''), imageUrl = JUndefined\<rparr>]\<rparr>"
  let ?t = "initial\<lparr>messages :=
            [\<lparr>type = Bot, content = JStr (js ''hello''), imageUrl = JUndefined\<rparr>,
             \<lparr>type = User, content = JStr (js ''hi''), imageUrl = JUndefined\<rparr>,
             \<lparr>type = Bot, content = chatErrorText, imageUrl = JUndefined\<rparr>]\<rparr>"
  have r: "run ?evs ?s = Inr ?t"
    by (simp add: handleSendMessage_def handleSendMessage_settled_def Let_def
        handleSendMessage_try_def render_def renders_def chatErrorText_def initial_def js_def
        trim_def isWhiteSpace_def)
  from transcript_append_only [OF r] r show ?thesis
    by simp
qed

text \<open>
  C10. A message that is not empty after trimming is appended to the transcript as a user
  turn, and the input is cleared, in the part of the handler that runs before the request;
  the turn stays whatever happens next, and when the request fails the error reply is
  appended after it: with nothing in between, the transcript is the old one, the user
  turn, then the error reply.
\<close>

theorem user_turn_kept_on_failure:
  assumes "trim (input s) \<noteq> []"
  shows "\<exists>s1 r. handleSendMessage s = (s1, Some r) \<and>
      message r = trim (input s) \<and>
      input s1 = [] \<and>
      messages s1 = messages s @
        [\<lparr>type = User, content = JStr (trim (input s)), imageUrl = JUndefined\<rparr>] \<and>
      handleSendMessage_settled Rejected s1 =
        Inr (s1\<lparr>messages := messages s @
                 [\<lparr>type = User, content = JStr (trim (input s)), imageUrl = JUndefined\<rparr>,
                  \<lparr>type = Bot, content = chatErrorText, imageUrl = JUndefined\<rparr>],
               loading := False\<rparr>) \<and>
      (\<forall>evs s2. run evs s1 = Inr s2 \<longrightarrow>
         prefix (messages s @
             [\<lparr>type = User, content = JStr (trim (input s)), imageUrl = JUndefined\<rparr>])
           (messages s2) \<and>
         (\<exists>s3. handleSendMessage_settled Rejected s2 = Inr s3 \<and>
               messages s3 = messages s2 @
                 [\<lparr>type = Bot, content = chatErrorText, imageUrl = JUndefined\<rparr>]))"
proof -
  let ?turn = "\<lparr>type = User, content = JStr (trim (input s)), imageUrl = JUndefined\<rparr>"
  let ?s1 = "s\<lparr>input := [], messages := messages s @ [?turn], loading := True\<rparr>"
  let ?r = "\<lparr>message = trim (input s),
            location_field = (if location s \<noteq> [] then Some (location s) else None),
            last_analysis = lastAnalysis s\<rparr>"
  have h: "handleSendMessage s = (?s1, Some ?r)"
    using assms by (rule handleSendMessage_nonempty)
  have "prefix (messages s @ [?turn]) (messages s2) \<and>
      (\<exists>s3. handleSendMessage_settled Rejected s2 = Inr s3 \<and>
            messages s3 = messages s2 @
              [\<lparr>type = Bot, content = chatErrorText, imageUrl = JUndefined\<rparr>])"
    if "run evs ?s1 = Inr s2" for evs :: "'a event list" and s2
    using run_effect [OF that] by (simp add: handleSendMessage_settled_Rejected)
  then show ?thesis
    using h by (simp add: handleSendMessage_settled_Rejected)
qed

theorem user_turn_kept_on_failure_witness:
  "trim (input (initial\<lparr>input := js '' hi ''\<rparr>)) \<noteq> [] \<and>
   (\<exists>s1 r. handleSendMessage (initial\<lparr>input := js '' hi ''\<rparr>) = (s1, Some r) \<and>
      handleSendMessage_settled Rejected s1 =
        Inr (s1\<lparr>messages :=
                 [\<lparr>type = User, content = JStr (js ''hi''), imageUrl = JUndefined\<rparr>,
                  \<lparr>type = Bot, content = chatErrorText, imageUrl = JUndefined\<rparr>],
               loading := False\<rparr>))"
proof -
  let ?s = "initial\<lparr>input := js '' hi ''\<rparr>"
  have t: "trim (input ?s) = js ''hi''"
    by (simp add: trim_def js_def isWhiteSpace_def)
  have n: "trim (input ?s) \<noteq> []"
    by (simp add: trim_def js_def isWhiteSpace_def)
  have m: "messages ?s = []"
    by (simp add: initial_def)
  from user_turn_kept_on_failure [OF n, where ?'a = unit] n show ?thesis
    unfolding t m by auto
qed

text \<open>
  C7. The request of a chat turn carries the location exactly as the location field holds
  it (it is not trimmed or changed) when that string is not empty, and has no location
  when the string is empty.
\<close>

theorem location_attached_verbatim:
  assumes "trim (input s) \<noteq> []"
  shows "\<exists>s1 r. handleSendMessage s = (s1, Some r) \<and>
      (location s \<noteq> [] \<longrightarrow> location_field r = Some (location s)) \<and>
      (location s = [] \<longrightarrow> location_field r = None)"
  using handleSendMessage_nonempty [OF assms] by simp

theorem location_attached_verbatim_witness:
  "trim (input (initial\<lparr>input := js ''cost?'', location := js '' Pune ''\<rparr>)) \<noteq> [] \<and>
   (\<exists>s1 r. handleSendMessage (initial\<lparr>input := js ''cost?'', location := js '' Pune ''\<rparr>)
       = (s1, Some r) \<and> location_field r = Some (js '' Pune ''))"
proof -
  let ?s = "initial\<lparr>input := js ''cost?'', location := js '' Pune ''\<rparr>"
  have n: "trim (input ?s) \<noteq> []"
    by (simp add: trim_def js_def isWhiteSpace_def)
  have l: "location ?s = js '' Pune ''"
    by simp
  have l': "js '' Pune '' \<noteq> []"
    by (simp add: js_def)
  from location_attached_verbatim [OF n] n show ?thesis
    unfolding l using l' by auto
qed

text \<open>
  C9. On an empty list of accepted files the upload handler changes nothing and sends
  nothing; otherwise it sets the loading flag and sends a form with one entry, the first
  file. The dropzone is configured with \<open>maxFiles: 1\<close> and accepts \<open>image/*\<close> only.
\<close>

theorem onDrop_first_file_only:
  "onDrop [] s = (s, None) \<and>
   onDrop (f # fs) s = (s\<lparr>loading := True\<rparr>, Some [(js ''file'', f)]) \<and>
   maxFiles dropzone = 1 \<and>
   map fst (accept dropzone) = [js ''image/*'']"
  by (simp add: onDrop_def dropzone_def)


section \<open>The claims about empty messages and failed requests\<close>

text \<open>
  C4, as the code has it. A message that is empty after trimming is ignored by the send
  handler: the state is returned as it was (no turn is appended, so no reply asks for a
  clarification, and the stored analysis is untouched), no request is sent, and the Send
  button is disabled.
\<close>

theorem empty_message_is_ignored:
  assumes "trim (input s) = []"
  shows "handleSendMessage s = (s, None) \<and> sendDisabled s"
  using assms by (simp add: handleSendMessage_empty sendDisabled_def)

theorem empty_message_is_ignored_witness:
  "trim (input (initial\<lparr>input := js ''  ''\<rparr>)) = [] \<and>
   handleSendMessage (initial\<lparr>input := js ''  ''\<rparr>) = (initial\<lparr>input := js ''  ''\<rparr>, None) \<and>
   sendDisabled (initial\<lparr>input := js ''  ''\<rparr>)"
proof -
  have e: "trim (input (initial\<lparr>input := js ''  ''\<rparr>)) = []"
    by (simp add: trim_def js_def isWhiteSpace_def)
  from empty_message_is_ignored [OF e] e show ?thesis
    by simp
qed

text \<open>
  C4 as stated fails: sending the empty message from the initial state leaves the
  transcript empty, so no clarification request is shown, and nothing is sent to be routed.
\<close>

theorem empty_message_counterexample:
  "messages (fst (handleSendMessage initial)) = [] \<and>
   snd (handleSendMessage initial) = None"
  by (simp add: handleSendMessage_def initial_def trim_def)

text \<open>
  C5, as the code has it. When the request of a chat or of an upload is rejected, the
  handler catches the error and returns normally: it appends one bot turn with a fixed text
  and clears the loading flag; the input, the location and the stored analysis are as they
  were. The text is the same whatever the stored analysis is.
\<close>

theorem failure_fallback_is_fixed:
  "handleSendMessage_settled Rejected s =
     Inr (s\<lparr>messages := messages s @
            [\<lparr>type = Bot, content = JStr (js ''Sorry, I encountered an error. Please try again.''),
              imageUrl = JUndefined\<rparr>],
          loading := False\<rparr>) \<and>
   onDrop_settled Rejected s =
     Inr (s\<lparr>messages := messages s @
            [\<lparr>type = Bot,
              content = JStr (js ''Sorry, there was an error processing your image. Please try again.''),
              imageUrl = JUndefined\<rparr>],
          loading := False\<rparr>)"
  by (simp only: handleSendMessage_settled_Rejected onDrop_settled_Rejected
      chatErrorText_def uploadErrorText_def simp_thms)

text \<open>
  C5 as stated fails: with a record that lists mold in \<open>lastAnalysis\<close>, the reply to a
  failed chat request is the turn that a state with no record gets; it says nothing of the
  record.
\<close>

theorem failure_fallback_counterexample:
  "lastAnalysis (initial\<lparr>lastAnalysis := JObj [(js ''issues'', JArr [JStr (js ''mold'')])]\<rparr>) \<noteq> JNull \<and>
   handleSendMessage_settled Rejected
       (initial\<lparr>lastAnalysis := JObj [(js ''issues'', JArr [JStr (js ''mold'')])]\<rparr>)
     = Inr (initial\<lparr>lastAnalysis := JObj [(js ''issues'', JArr [JStr (js ''mold'')])],
              messages := [\<lparr>type = Bot, content = chatErrorText, imageUrl = JUndefined\<rparr>]\<rparr>) \<and>
   handleSendMessage_settled Rejected initial
     = Inr (initial\<lparr>messages := [\<lparr>type = Bot, content = chatErrorText, imageUrl = JUndefined\<rparr>]\<rparr>)"
  by (simp add: handleSendMessage_settled_def handleSendMessage_try_def render_def renders_def
      chatErrorText_def initial_def)


section \<open>The claims about the normalizer\<close>

text \<open>
  C2, amended by the clamping of scores. The labels of the issues that \<open>normalize\<close>
  returns are distinct; they are the canonical labels of the raw detections; and the
  confidence of each issue is the maximum of the clamped scores of the detections with
  its label. So when the detections of a label have the scores s1 and s2, both in [0,1],
  its issue has the confidence max(s1, s2).
\<close>

theorem merge_keeps_maximum:
  "distinct (map label (normalize bands taxonomy raw)) \<and>
   label ` set (normalize bands taxonomy raw) = canonical taxonomy ` fst ` set raw \<and>
   (\<forall>i \<in> set (normalize bands taxonomy raw).
      confidence i =
        Max {clampScore s | name s. (name, s) \<in> set raw \<and> canonical taxonomy name = label i}) \<and>
   (\<forall>l s1 s2.
      {s. \<exists>name. (name, s) \<in> set raw \<and> canonical taxonomy name = l} = {s1, s2} \<and>
      0 \<le> s1 \<and> s1 \<le> 1 \<and> 0 \<le> s2 \<and> s2 \<le> 1 \<longrightarrow>
      (\<exists>i \<in> set (normalize bands taxonomy raw). label i = l \<and> confidence i = max s1 s2))"
proof (intro conjI ballI allI impI)
  show "distinct (map label (normalize bands taxonomy raw))"
    by (rule distinct_labels_normalize)
  show "label ` set (normalize bands taxonomy raw) = canonical taxonomy ` fst ` set raw"
    by (rule labels_normalize)
  show "confidence i =
      Max {clampScore s | name s. (name, s) \<in> set raw \<and> canonical taxonomy name = label i}"
    if "i \<in> set (normalize bands taxonomy raw)" for i
    using that by (rule confidence_normalize)
  show "\<exists>i \<in> set (normalize bands taxonomy raw). label i = l \<and> confidence i = max s1 s2"
    if h: "{s. \<exists>name. (name, s) \<in> set raw \<and> canonical taxonomy name = l} = {s1, s2} \<and>
      0 \<le> s1 \<and> s1 \<le> 1 \<and> 0 \<le> s2 \<and> s2 \<le> 1"
    for l s1 s2
  proof -
    from h have eq: "{s. \<exists>name. (name, s) \<in> set raw \<and> canonical taxonomy name = l} = {s1, s2}"
      by (rule conjunct1)
    from h have c1: "clampScore s1 = s1" and c2: "clampScore s2 = s2"
      by (simp_all add: clampScore_def)
    from eq have "s1 \<in> {s. \<exists>name. (name, s) \<in> set raw \<and> canonical taxonomy name = l}"
      by simp
    then obtain name where "(name, s1) \<in> set raw" and "canonical taxonomy name = l"
      by blast
    then have "l \<in> canonical taxonomy ` fst ` set raw"
      by force
    then have "l \<in> label ` set (normalize bands taxonomy raw)"
      by (simp only: labels_normalize)
    then obtain i where i: "i \<in> set (normalize bands taxonomy raw)" and l: "label i = l"
      by blast
    have "{clampScore s | name s. (name, s) \<in> set raw \<and> canonical taxonomy name = l}
        = clampScore ` {s. \<exists>name. (name, s) \<in> set raw \<and> canonical taxonomy name = l}"
      by blast
    also have "\<dots> = clampScore ` {s1, s2}"
      by (simp only: eq)
    also have "\<dots> = {s1, s2}"
      by (simp add: c1 c2)
    finally have "confidence i = Max {s1, s2}"
      using confidence_normalize [OF i] by (simp only: l)
    then have "confidence i = max s1 s2"
      by (simp add: max.commute)
    with i l show ?thesis
      by blast
  qed
qed

theorem merge_keeps_maximum_witness:
  "normalize defaultBands exampleTaxonomy
     [(''water stain'', 0.82), (''water stain'', 0.5), (''crack'', 0.3)]
   = [\<lparr>label = WaterDamage, confidence = 0.82, severity = High, region = None\<rparr>,
      \<lparr>label = StructuralDamage, confidence = 0.3, severity = Low, region = None\<rparr>] \<and>
   distinct (map label (normalize defaultBands exampleTaxonomy
     [(''water stain'', 0.82), (''water stain'', 0.5), (''crack'', 0.3)]))"
proof -
  have "normalize defaultBands exampleTaxonomy
     [(''water stain'', 0.82), (''water stain'', 0.5), (''crack'', 0.3)]
   = [\<lparr>label = WaterDamage, confidence = 0.82, severity = High, region = None\<rparr>,
      \<lparr>label = StructuralDamage, confidence = 0.3, severity = Low, region = None\<rparr>]"
    by (simp add: normalize_def exampleTaxonomy_def canonical_def clampScore_def toIssue_def
        severityOf_def defaultBands_def ranksBefore_def)
  then show ?thesis
    using merge_keeps_maximum [of defaultBands exampleTaxonomy
        "[(''water stain'', 0.82), (''water stain'', 0.5), (''crack'', 0.3)]"]
    by blast
qed

text \<open>
  C2 as stated fails on a score outside [0,1]: two detections of mold with the scores 1.5
  and 0.5 merge into one issue of confidence 1, which is not max(1.5, 0.5).
\<close>

theorem merge_maximum_counterexample:
  "map confidence (normalize defaultBands exampleTaxonomy [(''mold'', 1.5), (''mold'', 0.5)]) = [1] \<and>
   max (1.5 :: real) 0.5 \<noteq> 1"
  by (simp add: normalize_def exampleTaxonomy_def canonical_def clampScore_def toIssue_def
      severityOf_def defaultBands_def ranksBefore_def)

text \<open>
  C3. In every issue sequence that \<open>normalize\<close> returns, each issue has a confidence at
  least that of every later one, and of two issues with the same confidence the earlier
  has the higher taxonomy priority (structural, water, mold, cosmetic, other).
\<close>

theorem normalize_ordering:
  "sorted_wrt
     (\<lambda>a b. confidence b \<le> confidence a \<and>
            (confidence a = confidence b \<longrightarrow> priority (label a) < priority (label b)))
     (normalize bands taxonomy raw)"
proof -
  have "sorted_wrt ranksBefore (normalize bands taxonomy raw)"
    by (simp add: normalize_def sorted_sortIssues)
  then have "sorted_wrt (\<lambda>a b. ranksBefore a b \<and> label a \<noteq> label b)
      (normalize bands taxonomy raw)"
    using distinct_labels_normalize by (rule sorted_wrt_distinct_key)
  then show ?thesis
  proof (rule sorted_wrt_mono_rel [rotated])
    fix a b
    assume "ranksBefore a b \<and> label a \<noteq> label b"
    then show "confidence b \<le> confidence a \<and>
        (confidence a = confidence b \<longrightarrow> priority (label a) < priority (label b))"
      using priority_inj [of "label a" "label b"]
      by (auto simp: ranksBefore_def order_le_less)
  qed
qed

theorem normalize_ordering_witness:
  "normalize defaultBands exampleTaxonomy
     [(''mold'', 0.5), (''crack'', 0.5), (''peeling paint'', 0.9), (''water stain'', 0.5)]
   = [\<lparr>label = Other, confidence = 0.9, severity = High, region = None\<rparr>,
      \<lparr>label = StructuralDamage, confidence = 0.5, severity = Medium, region = None\<rparr>,
      \<lparr>label = WaterDamage, confidence = 0.5, severity = Medium, region = None\<rparr>,
      \<lparr>label = Mold, confidence = 0.5, severity = Medium, region = None\<rparr>] \<and>
   sorted_wrt
     (\<lambda>a b. confidence b \<le> confidence a \<and>
            (confidence a = confidence b \<longrightarrow> priority (label a) < priority (label b)))
     (normalize defaultBands exampleTaxonomy
       [(''mold'', 0.5), (''crack'', 0.5), (''peeling paint'', 0.9), (''water stain'', 0.5)])"
proof -
  have "normalize defaultBands exampleTaxonomy
     [(''mold'', 0.5), (''crack'', 0.5), (''peeling paint'', 0.9), (''water stain'', 0.5)]
   = [\<lparr>label = Other, confidence = 0.9, severity = High, region = None\<rparr>,
      \<lparr>label = StructuralDamage, confidence = 0.5, severity = Medium, region = None\<rparr>,
      \<lparr>label = WaterDamage, confidence = 0.5, severity = Medium, region = None\<rparr>,
      \<lparr>label = Mold, confidence = 0.5, severity = Medium, region = None\<rparr>]"
    by (simp add: normalize_def exampleTaxonomy_def canonical_def clampScore_def toIssue_def
        severityOf_def defaultBands_def ranksBefore_def)
  then show ?thesis
    using normalize_ordering [of defaultBands exampleTaxonomy
        "[(''mold'', 0.5), (''crack'', 0.5), (''peeling paint'', 0.9), (''water stain'', 0.5)]"]
    by blast
qed

end
